theory Spec2Isabelle
  imports Complex_Main "HOL-Library.Multiset"
begin

section \<open>The load-test report as a value\<close>

text \<open>
  \<open>generate_graphs.py\<close> reads \<open>spike_results.json\<close> with \<open>json.load\<close> and hands the
  resulting object, or \<open>None\<close> when loading failed, to \<open>extract_performance_data\<close>.
  A loaded document is \<open>None\<close>, a bool, an int, a float, a string, a list or a dict with
  string keys. A dict is an association list in insertion order, since the scan of the
  metrics and the ranking of the endpoints depend on that order; \<open>d.get\<close> reads the
  first pair with the key. A dict of Python holds each key once; no property below
  needs that. Python ints are unbounded. A float is carried as the rational number it
  denotes: rounding to binary64 and the values \<open>nan\<close> and \<open>inf\<close> are not part of
  this model.
\<close>

datatype json =
    JNull
  | JBool bool
  | JInt int
  | JFloat rat
  | JStr string
  | JList "json list"
  | JDict "(string \<times> json) list"

text \<open>
  The exceptions that the operations of the extractor can raise. A raise ends the
  function, so a computation is chained with \<open>bind_result\<close>, which stops at the first
  \<open>Inl\<close>.
\<close>

datatype error = AttributeError | TypeError | ZeroDivisionError | OverflowError

definition bind_result :: "error + 'a \<Rightarrow> ('a \<Rightarrow> error + 'b) \<Rightarrow> error + 'b" where
  "bind_result m f = (case m of Inl e \<Rightarrow> Inl e | Inr v \<Rightarrow> f v)"

text \<open>Python's truth value of an object, as \<open>if not data\<close> and \<open>if values\<close> test it.\<close>

fun truthy :: "json \<Rightarrow> bool" where
  "truthy JNull = False"
| "truthy (JBool b) = b"
| "truthy (JInt i) = (i \<noteq> 0)"
| "truthy (JFloat q) = (q \<noteq> 0)"
| "truthy (JStr s) = (s \<noteq> [])"
| "truthy (JList xs) = (xs \<noteq> [])"
| "truthy (JDict kvs) = (kvs \<noteq> [])"

text \<open>
  \<open>obj.get(key, default)\<close>: only a dict has the method; on any other object the
  attribute lookup raises \<open>AttributeError\<close>. A missing key gives the default.
\<close>

definition dict_get :: "(string \<times> json) list \<Rightarrow> string \<Rightarrow> json \<Rightarrow> json" where
  "dict_get kvs key dflt = (case map_of kvs key of Some v \<Rightarrow> v | None \<Rightarrow> dflt)"

fun py_get :: "json \<Rightarrow> string \<Rightarrow> json \<Rightarrow> error + json" where
  "py_get (JDict kvs) key dflt = Inr (dict_get kvs key dflt)"
| "py_get _ key dflt = Inl AttributeError"

text \<open>\<open>obj.items()\<close>, in insertion order.\<close>

fun py_items :: "json \<Rightarrow> error + (string \<times> json) list" where
  "py_items (JDict kvs) = Inr kvs"
| "py_items _ = Inl AttributeError"

text \<open>\<open>d[key] = value\<close>: an existing key keeps its position, a new key goes last.\<close>

fun dict_set :: "('k \<times> 'v) list \<Rightarrow> 'k \<Rightarrow> 'v \<Rightarrow> ('k \<times> 'v) list" where
  "dict_set [] k v = [(k, v)]"
| "dict_set ((k', v') # kvs) k v =
     (if k' = k then (k, v) # kvs else (k', v') # dict_set kvs k v)"

text \<open>The number an object stands for in arithmetic; \<open>bool\<close> is a subclass of \<open>int\<close>.\<close>

fun num_val :: "json \<Rightarrow> rat option" where
  "num_val (JBool b) = Some (if b then 1 else 0)"
| "num_val (JInt i) = Some (of_int i)"
| "num_val (JFloat q) = Some q"
| "num_val _ = None"

text \<open>
  \<open>x / n\<close> with an int literal \<open>n\<close>. True division of two ints raises
  \<open>OverflowError\<close> when the quotient rounds to a magnitude beyond the largest
  binary64 number, that is from \<open>2 ^ 1024 - 2 ^ 970\<close> on; a float operand converts
  the int \<open>n\<close> to a float first. An operand that is no number raises \<open>TypeError\<close>.
\<close>

definition float_overflow_bound :: rat where
  "float_overflow_bound = 2 ^ 1024 - 2 ^ 970"

fun py_truediv :: "json \<Rightarrow> int \<Rightarrow> error + json" where
  "py_truediv (JFloat q) n =
     (if float_overflow_bound \<le> \<bar>of_int n\<bar> then Inl OverflowError
      else if n = 0 then Inl ZeroDivisionError
      else Inr (JFloat (q / of_int n)))"
| "py_truediv x n =
     (case num_val x of
        None \<Rightarrow> Inl TypeError
      | Some i \<Rightarrow>
          if n = 0 then Inl ZeroDivisionError
          else if float_overflow_bound \<le> \<bar>i / of_int n\<bar> then Inl OverflowError
          else Inr (JFloat (i / of_int n)))"

text \<open>\<open>s.startswith(p)\<close>.\<close>

definition startswith :: "string \<Rightarrow> string \<Rightarrow> bool" where
  "startswith s p = (take (length p) s = p)"

text \<open>
  \<open>s.replace(old, new)\<close>: every occurrence of \<open>old\<close>, found from the left and not
  overlapping, is replaced; an empty \<open>old\<close> matches before every character and at
  the end.
\<close>

function str_replace :: "string \<Rightarrow> string \<Rightarrow> string \<Rightarrow> string" where
  "str_replace old new [] = (if old = [] then new else [])"
| "str_replace old new (c # cs) =
     (if old = [] then new @ c # str_replace old new cs
      else if startswith (c # cs) old
        then new @ str_replace old new (drop (length old) (c # cs))
      else c # str_replace old new cs)"
  by pat_completeness auto
termination
  by (relation "measure (\<lambda>(old, new, s). length s)") auto

section \<open>The metrics extractor\<close>

text \<open>
  The dict under \<open>'overall'\<close> and the dict of one endpoint have fixed keys and are
  records. Their values are whatever object the report holds under the field, or the
  default \<open>0\<close>. The dict under \<open>'endpoints'\<close> is keyed by the endpoint name and keeps
  its insertion order.
\<close>

record endpoint_stats =
  ep_avg :: json
  ep_min :: json
  ep_med :: json
  ep_p90 :: json
  ep_p95 :: json
  ep_p99 :: json
  ep_max :: json

record overall_stats =
  p50 :: json
  p90 :: json
  p95 :: json
  p99 :: json
  avg :: json
  min_val :: json
  max_val :: json
  total_requests :: json
  requests_per_sec :: json
  error_rate :: json
  duration_s :: json
  vus :: json
  vus_max :: json
  checks_pass_rate :: json
  checks_total :: json
  checks_passed :: json
  checks_failed :: json

record performance =
  overall :: overall_stats
  endpoints :: "(string \<times> endpoint_stats) list"

text \<open>\<open>metrics.get(name, {}).get('values', {})\<close>, lines 28 to 32.\<close>

definition metric_values :: "json \<Rightarrow> string \<Rightarrow> error + json" where
  "metric_values metrics name =
     bind_result (py_get metrics name (JDict [])) (\<lambda>m. py_get m ''values'' (JDict []))"

text \<open>The dict stored for one endpoint, lines 41 to 49, its values evaluated in order.\<close>

definition endpoint_dict :: "json \<Rightarrow> error + endpoint_stats" where
  "endpoint_dict values =
     bind_result (py_get values ''avg'' (JInt 0)) (\<lambda>v_avg.
     bind_result (py_get values ''min'' (JInt 0)) (\<lambda>v_min.
     bind_result (py_get values ''med'' (JInt 0)) (\<lambda>v_med.
     bind_result (py_get values ''p(90)'' (JInt 0)) (\<lambda>v_p90.
     bind_result (py_get values ''p(95)'' (JInt 0)) (\<lambda>v_p95.
     bind_result (py_get values ''p(99)'' (JInt 0)) (\<lambda>v_p99.
     bind_result (py_get values ''max'' (JInt 0)) (\<lambda>v_max.
       Inr \<lparr>ep_avg = v_avg, ep_min = v_min, ep_med = v_med, ep_p90 = v_p90,
            ep_p95 = v_p95, ep_p99 = v_p99, ep_max = v_max\<rparr>)))))))"

text \<open>
  The body of the loop over \<open>metrics.items()\<close>, lines 37 to 49, from the dict of
  endpoints so far to the dict after this metric.
\<close>

definition endpoint_step ::
  "(string \<times> endpoint_stats) list \<Rightarrow> string \<times> json \<Rightarrow> error + (string \<times> endpoint_stats) list"
where
  "endpoint_step endpoint_metrics item =
     (case item of (metric_name, metric_data) \<Rightarrow>
        if startswith metric_name ''latency_ms_'' then
          (let endpoint = str_replace ''latency_ms_'' '''' metric_name in
           bind_result (py_get metric_data ''values'' (JDict [])) (\<lambda>values.
             if truthy values then
               bind_result (endpoint_dict values) (\<lambda>stats.
                 Inr (dict_set endpoint_metrics endpoint stats))
             else Inr endpoint_metrics))
        else Inr endpoint_metrics)"

text \<open>The loop of line 36, over the items in their order.\<close>

fun endpoint_loop ::
  "(string \<times> endpoint_stats) list \<Rightarrow> (string \<times> json) list \<Rightarrow> error + (string \<times> endpoint_stats) list"
where
  "endpoint_loop endpoint_metrics [] = Inr endpoint_metrics"
| "endpoint_loop endpoint_metrics (item # items) =
     bind_result (endpoint_step endpoint_metrics item) (\<lambda>acc. endpoint_loop acc items)"

text \<open>The dict under \<open>'overall'\<close>, lines 52 to 70, its values evaluated in order.\<close>

definition overall_dict :: "json \<Rightarrow> json \<Rightarrow> json \<Rightarrow> json \<Rightarrow> json \<Rightarrow> json \<Rightarrow> error + overall_stats" where
  "overall_dict data http_duration http_reqs http_failed vus_values checks =
     bind_result (py_get http_duration ''med'' (JInt 0)) (\<lambda>v_p50.
     bind_result (py_get http_duration ''p(90)'' (JInt 0)) (\<lambda>v_p90.
     bind_result (py_get http_duration ''p(95)'' (JInt 0)) (\<lambda>v_p95.
     bind_result (py_get http_duration ''p(99)'' (JInt 0)) (\<lambda>v_p99.
     bind_result (py_get http_duration ''avg'' (JInt 0)) (\<lambda>v_avg.
     bind_result (py_get http_duration ''min'' (JInt 0)) (\<lambda>v_min.
     bind_result (py_get http_duration ''max'' (JInt 0)) (\<lambda>v_max.
     bind_result (py_get http_reqs ''count'' (JInt 0)) (\<lambda>v_total.
     bind_result (py_get http_reqs ''rate'' (JInt 0)) (\<lambda>v_rps.
     bind_result (py_get http_failed ''rate'' (JInt 0)) (\<lambda>v_err.
     bind_result (py_get data ''state'' (JDict [])) (\<lambda>state.
     bind_result (py_get state ''testRunDurationMs'' (JInt 0)) (\<lambda>ms.
     bind_result (py_truediv ms 1000) (\<lambda>v_duration.
     bind_result (py_get vus_values ''value'' (JInt 0)) (\<lambda>v_vus.
     bind_result (py_get vus_values ''max'' (JInt 0)) (\<lambda>v_vus_max.
     bind_result (py_get checks ''rate'' (JInt 0)) (\<lambda>v_rate.
     bind_result (py_get checks ''count'' (JInt 0)) (\<lambda>v_count.
     bind_result (py_get checks ''passes'' (JInt 0)) (\<lambda>v_passes.
     bind_result (py_get checks ''fails'' (JInt 0)) (\<lambda>v_fails.
       Inr \<lparr>p50 = v_p50, p90 = v_p90, p95 = v_p95, p99 = v_p99, avg = v_avg,
            min_val = v_min, max_val = v_max, total_requests = v_total,
            requests_per_sec = v_rps, error_rate = v_err, duration_s = v_duration,
            vus = v_vus, vus_max = v_vus_max, checks_pass_rate = v_rate,
            checks_total = v_count, checks_passed = v_passes,
            checks_failed = v_fails\<rparr>)))))))))))))))))))"

text \<open>\<open>extract_performance_data\<close>, lines 22 to 72; \<open>Inr None\<close> is the return of \<open>None\<close>.\<close>

definition extract_performance_data :: "json \<Rightarrow> error + performance option" where
  "extract_performance_data data =
     (if \<not> truthy data then Inr None
      else
        bind_result (py_get data ''metrics'' (JDict [])) (\<lambda>metrics.
        bind_result (metric_values metrics ''http_req_duration'') (\<lambda>http_duration.
        bind_result (metric_values metrics ''http_reqs'') (\<lambda>http_reqs.
        bind_result (metric_values metrics ''http_req_failed'') (\<lambda>http_failed.
        bind_result (metric_values metrics ''vus'') (\<lambda>vus_values.
        bind_result (metric_values metrics ''checks'') (\<lambda>checks.
        bind_result (py_items metrics) (\<lambda>items.
        bind_result (endpoint_loop [] items) (\<lambda>endpoint_metrics.
        bind_result (overall_dict data http_duration http_reqs http_failed vus_values checks)
          (\<lambda>overall_values.
             Inr (Some \<lparr>overall = overall_values, endpoints = endpoint_metrics\<rparr>)))))))))))"

section \<open>The ranking of the endpoints\<close>

text \<open>
  \<open>create_all_endpoints_comparison\<close> (line 127) and \<open>print_performance_summary\<close>
  (lines 396 to 397) both rank the endpoints with
  \<open>sorted(endpoints.items(), key=lambda x: x[1]['p95'], reverse=True)\<close>.
  With \<open>reverse=True\<close> the sort of Python reverses the list, sorts it stably in
  ascending order of the keys and reverses the result. The keys are compared as
  numbers, an int and a float by their values. Where a key is no number, what Python
  does depends on the types it meets during the sort; that is outside this model, and
  the result is \<open>None\<close>.
\<close>

definition p95_number :: "string \<times> endpoint_stats \<Rightarrow> rat" where
  "p95_number x = (case num_val (ep_p95 (snd x)) of Some q \<Rightarrow> q | None \<Rightarrow> 0)"

definition sorted_by_p95 ::
  "(string \<times> endpoint_stats) list \<Rightarrow> (string \<times> endpoint_stats) list option" where
  "sorted_by_p95 items =
     (if list_all (\<lambda>x. num_val (ep_p95 (snd x)) \<noteq> None) items
      then Some (rev (sort_key p95_number (rev items)))
      else None)"

text \<open>
  The list \<open>sorted_endpoints\<close> of the endpoint comparison, line 127, which the guard
  of line 122 lets the function reach when the dict of endpoints is not empty.
\<close>

definition comparison_sorted_endpoints ::
  "performance \<Rightarrow> (string \<times> endpoint_stats) list option" where
  "comparison_sorted_endpoints performance = sorted_by_p95 (endpoints performance)"

text \<open>The list \<open>sorted_endpoints\<close> of the console summary, lines 396 to 397: the slice \<open>[:5]\<close>.\<close>

definition summary_sorted_endpoints ::
  "performance \<Rightarrow> (string \<times> endpoint_stats) list option" where
  "summary_sorted_endpoints performance =
     map_option (take 5) (sorted_by_p95 (endpoints performance))"

section \<open>Raw Reports\<close>

text \<open>
  The Raw Report of the data model: a mapping with an optional \<open>metrics\<close> mapping from
  metric names to Metric Entries and an optional \<open>state\<close> mapping. A Metric Entry is a
  mapping with an optional \<open>values\<close> mapping; what the fields of \<open>values\<close> hold is
  left open. The state has an optional number \<open>testRunDurationMs\<close>, whose thousandth
  is in the range of a float. Every key, at every level, may be absent.
\<close>

fun is_dict :: "json \<Rightarrow> bool" where
  "is_dict (JDict kvs) = True"
| "is_dict _ = False"

definition metric_shaped :: "json \<Rightarrow> bool" where
  "metric_shaped md =
     (case md of
        JDict kv \<Rightarrow> (case map_of kv ''values'' of None \<Rightarrow> True | Some v \<Rightarrow> is_dict v)
      | _ \<Rightarrow> False)"

definition metrics_shaped :: "json \<Rightarrow> bool" where
  "metrics_shaped m =
     (case m of JDict ms \<Rightarrow> list_all (\<lambda>item. metric_shaped (snd item)) ms | _ \<Rightarrow> False)"

definition duration_shaped :: "json \<Rightarrow> bool" where
  "duration_shaped v =
     (case num_val v of None \<Rightarrow> False | Some q \<Rightarrow> \<bar>q / 1000\<bar> < float_overflow_bound)"

definition state_shaped :: "json \<Rightarrow> bool" where
  "state_shaped s =
     (case s of
        JDict kv \<Rightarrow>
          (case map_of kv ''testRunDurationMs'' of None \<Rightarrow> True | Some v \<Rightarrow> duration_shaped v)
      | _ \<Rightarrow> False)"

definition report_shaped :: "json \<Rightarrow> bool" where
  "report_shaped data =
     (case data of
        JDict kvs \<Rightarrow>
          (case map_of kvs ''metrics'' of None \<Rightarrow> True | Some m \<Rightarrow> metrics_shaped m) \<and>
          (case map_of kvs ''state'' of None \<Rightarrow> True | Some s \<Rightarrow> state_shaped s)
      | _ \<Rightarrow> False)"

text \<open>
  The number under \<open>state.testRunDurationMs\<close>, and 0 where the state or the field
  is absent.
\<close>

definition test_run_duration_ms :: "(string \<times> json) list \<Rightarrow> rat" where
  "test_run_duration_ms kvs =
     (case map_of kvs ''state'' of
        Some (JDict st) \<Rightarrow>
          (case map_of st ''testRunDurationMs'' of
             Some v \<Rightarrow> (case num_val v of Some q \<Rightarrow> q | None \<Rightarrow> 0)
           | None \<Rightarrow> 0)
      | _ \<Rightarrow> 0)"

text \<open>
  The seven fields of an endpoint and the seventeen fields of the overall statistics,
  read from \<open>values\<close> mappings with the default 0.
\<close>

definition stats_of :: "(string \<times> json) list \<Rightarrow> endpoint_stats" where
  "stats_of vs =
     \<lparr>ep_avg = dict_get vs ''avg'' (JInt 0), ep_min = dict_get vs ''min'' (JInt 0),
      ep_med = dict_get vs ''med'' (JInt 0), ep_p90 = dict_get vs ''p(90)'' (JInt 0),
      ep_p95 = dict_get vs ''p(95)'' (JInt 0), ep_p99 = dict_get vs ''p(99)'' (JInt 0),
      ep_max = dict_get vs ''max'' (JInt 0)\<rparr>"

definition overall_of ::
  "(string \<times> json) list \<Rightarrow> (string \<times> json) list \<Rightarrow> (string \<times> json) list \<Rightarrow>
   (string \<times> json) list \<Rightarrow> (string \<times> json) list \<Rightarrow> json \<Rightarrow> overall_stats" where
  "overall_of a b c d e v_duration =
     \<lparr>p50 = dict_get a ''med'' (JInt 0), p90 = dict_get a ''p(90)'' (JInt 0),
      p95 = dict_get a ''p(95)'' (JInt 0), p99 = dict_get a ''p(99)'' (JInt 0),
      avg = dict_get a ''avg'' (JInt 0), min_val = dict_get a ''min'' (JInt 0),
      max_val = dict_get a ''max'' (JInt 0),
      total_requests = dict_get b ''count'' (JInt 0),
      requests_per_sec = dict_get b ''rate'' (JInt 0),
      error_rate = dict_get c ''rate'' (JInt 0), duration_s = v_duration,
      vus = dict_get d ''value'' (JInt 0), vus_max = dict_get d ''max'' (JInt 0),
      checks_pass_rate = dict_get e ''rate'' (JInt 0),
      checks_total = dict_get e ''count'' (JInt 0),
      checks_passed = dict_get e ''passes'' (JInt 0),
      checks_failed = dict_get e ''fails'' (JInt 0)\<rparr>"

text \<open>A Metric Entry whose \<open>values\<close> mapping is empty or absent.\<close>

definition empty_values :: "json \<Rightarrow> bool" where
  "empty_values md =
     (case md of
        JDict kv \<Rightarrow> (case map_of kv ''values'' of None \<Rightarrow> True | Some v \<Rightarrow> v = JDict [])
      | _ \<Rightarrow> False)"

text \<open>
  The metrics that the scan records, the endpoint name of a metric, and the keys of a
  dict after an assignment to a key: a new key goes last.
\<close>

definition recorded :: "string \<times> json \<Rightarrow> bool" where
  "recorded item =
     (startswith (fst item) ''latency_ms_'' \<and>
      (case snd item of
         JDict kv \<Rightarrow> truthy (dict_get kv ''values'' (JDict []))
       | _ \<Rightarrow> False))"

definition endpoint_of :: "string \<times> json \<Rightarrow> string" where
  "endpoint_of item = str_replace ''latency_ms_'' '''' (fst item)"

definition add_key :: "'a list \<Rightarrow> 'a \<Rightarrow> 'a list" where
  "add_key ks k = (if k \<in> set ks then ks else ks @ [k])"

section \<open>Properties of the operations\<close>

subsection \<open>The result type and the primitives\<close>

lemma bind_result_Inr [simp]: "bind_result (Inr v) f = f v"
  by (simp add: bind_result_def)

lemma bind_result_Inl [simp]: "bind_result (Inl e) f = Inl e"
  by (simp add: bind_result_def)

lemma bind_result_eq_Inr: "(bind_result m f = Inr y) = (\<exists>x. m = Inr x \<and> f x = Inr y)"
  by (cases m) simp_all

lemma py_truediv_shaped:
  assumes "duration_shaped v" and "num_val v = Some q"
  shows "py_truediv v 1000 = Inr (JFloat (q / 1000))"
proof -
  have big: "\<not> float_overflow_bound \<le> \<bar>of_int 1000\<bar>"
    by (simp add: float_overflow_bound_def)
  from assms have small: "\<not> float_overflow_bound \<le> \<bar>q / 1000\<bar>"
    by (simp add: duration_shaped_def)
  show ?thesis
  proof (cases v)
    case (JFloat r)
    with assms big show ?thesis by simp
  next
    case (JBool b)
    with assms small show ?thesis by (simp del: of_int_numeral)
  next
    case (JInt i)
    with assms small show ?thesis by (simp del: of_int_numeral)
  qed (use assms in simp_all)
qed

lemma py_truediv_zero: "py_truediv (JInt 0) 1000 = Inr (JFloat 0)"
  by (simp add: float_overflow_bound_def)

lemma set_dict_set: "set (dict_set kvs k v) \<subseteq> insert (k, v) (set kvs)"
  by (induction kvs) (auto split: if_splits)

lemma map_fst_dict_set:
  "map fst (dict_set kvs k v) =
     (if k \<in> set (map fst kvs) then map fst kvs else map fst kvs @ [k])"
  by (induction kvs) force+

lemma keys_dict_set: "fst ` set (dict_set kvs k v) = insert k (fst ` set kvs)"
proof -
  have "set (map fst (dict_set kvs k v)) = insert k (set (map fst kvs))"
    unfolding map_fst_dict_set by auto
  then show ?thesis by simp
qed

subsection \<open>The named metrics and the overall statistics\<close>

lemma metric_values_dict:
  "metric_values (JDict ms) name =
     py_get (dict_get ms name (JDict [])) ''values'' (JDict [])"
  by (simp add: metric_values_def)


lemma metric_values_lookup:
  assumes "map_of ms name = Some (JDict m)" and "map_of m ''values'' = Some v"
  shows "metric_values (JDict ms) name = Inr v"
  using assms by (simp add: metric_values_def dict_get_def)

lemma metric_values_shaped:
  assumes "metrics_shaped (JDict ms)"
  shows "\<exists>vs. metric_values (JDict ms) name = Inr (JDict vs)"
proof (cases "map_of ms name")
  case None
  then show ?thesis by (simp add: metric_values_dict dict_get_def)
next
  case (Some md)
  then have "(name, md) \<in> set ms" by (rule map_of_SomeD)
  with assms have "metric_shaped md"
    by (auto simp: metrics_shaped_def list_all_iff)
  then obtain kv where md: "md = JDict kv"
    and v: "case map_of kv ''values'' of None \<Rightarrow> True | Some v \<Rightarrow> is_dict v"
    by (cases md) (simp_all add: metric_shaped_def)
  show ?thesis
  proof (cases "map_of kv ''values''")
    case None
    with Some md show ?thesis by (simp add: metric_values_dict dict_get_def)
  next
    case (Some w)
    with v obtain vs where "w = JDict vs" by (cases w) simp_all
    with Some \<open>map_of ms name = Some md\<close> md show ?thesis
      by (simp add: metric_values_dict dict_get_def)
  qed
qed

lemma state_duration:
  assumes "case map_of kvs ''state'' of None \<Rightarrow> True | Some s \<Rightarrow> state_shaped s"
  shows "bind_result (py_get (dict_get kvs ''state'' (JDict [])) ''testRunDurationMs'' (JInt 0))
           (\<lambda>ms. py_truediv ms 1000)
         = Inr (JFloat (test_run_duration_ms kvs / 1000))"
proof (cases "map_of kvs ''state''")
  case None
  then show ?thesis
    by (simp add: dict_get_def test_run_duration_ms_def py_truediv_zero del: py_truediv.simps)
next
  case (Some s)
  with assms have "state_shaped s" by simp
  then obtain st where s: "s = JDict st"
    and d: "case map_of st ''testRunDurationMs'' of None \<Rightarrow> True | Some v \<Rightarrow> duration_shaped v"
    by (cases s) (simp_all add: state_shaped_def)
  show ?thesis
  proof (cases "map_of st ''testRunDurationMs''")
    case None
    with Some s show ?thesis
      by (simp add: dict_get_def test_run_duration_ms_def py_truediv_zero del: py_truediv.simps)
  next
    case (Some v)
    with d have dv: "duration_shaped v" by simp
    then obtain q where q: "num_val v = Some q"
      by (cases "num_val v") (simp_all add: duration_shaped_def)
    from py_truediv_shaped [OF dv q] Some s q \<open>map_of kvs ''state'' = Some s\<close>
    show ?thesis
      by (simp add: dict_get_def test_run_duration_ms_def del: py_truediv.simps)
  qed
qed

lemma overall_dict_dicts:
  "overall_dict (JDict kvs) (JDict a) (JDict b) (JDict c) (JDict d) (JDict e) =
     bind_result
       (bind_result (py_get (dict_get kvs ''state'' (JDict [])) ''testRunDurationMs'' (JInt 0))
          (\<lambda>ms. py_truediv ms 1000))
       (\<lambda>v_duration.
          Inr \<lparr>p50 = dict_get a ''med'' (JInt 0), p90 = dict_get a ''p(90)'' (JInt 0),
               p95 = dict_get a ''p(95)'' (JInt 0), p99 = dict_get a ''p(99)'' (JInt 0),
               avg = dict_get a ''avg'' (JInt 0), min_val = dict_get a ''min'' (JInt 0),
               max_val = dict_get a ''max'' (JInt 0),
               total_requests = dict_get b ''count'' (JInt 0),
               requests_per_sec = dict_get b ''rate'' (JInt 0),
               error_rate = dict_get c ''rate'' (JInt 0), duration_s = v_duration,
               vus = dict_get d ''value'' (JInt 0), vus_max = dict_get d ''max'' (JInt 0),
               checks_pass_rate = dict_get e ''rate'' (JInt 0),
               checks_total = dict_get e ''count'' (JInt 0),
               checks_passed = dict_get e ''passes'' (JInt 0),
               checks_failed = dict_get e ''fails'' (JInt 0)\<rparr>)"
  by (cases "py_get (dict_get kvs ''state'' (JDict [])) ''testRunDurationMs'' (JInt 0)")
     (simp_all add: overall_dict_def)

lemma overall_dict_of:
  "overall_dict (JDict kvs) (JDict a) (JDict b) (JDict c) (JDict d) (JDict e) =
     bind_result
       (bind_result (py_get (dict_get kvs ''state'' (JDict [])) ''testRunDurationMs'' (JInt 0))
          (\<lambda>ms. py_truediv ms 1000))
       (\<lambda>v_duration. Inr (overall_of a b c d e v_duration))"
  by (simp add: overall_dict_dicts overall_of_def)

subsection \<open>The scan of the metrics\<close>

lemma endpoint_dict_dict: "endpoint_dict (JDict vs) = Inr (stats_of vs)"
  by (simp add: endpoint_dict_def stats_of_def)

lemma endpoint_dict_Inr: "endpoint_dict v = Inr r \<Longrightarrow> \<exists>vs. v = JDict vs \<and> r = stats_of vs"
  by (cases v) (simp_all add: endpoint_dict_def stats_of_def)

lemma endpoint_step_other:
  "\<not> startswith n ''latency_ms_'' \<Longrightarrow> endpoint_step acc (n, md) = Inr acc"
  by (simp add: endpoint_step_def)

lemma endpoint_step_record:
  assumes "startswith n ''latency_ms_''"
    and "py_get md ''values'' (JDict []) = Inr (JDict vs)" and "vs \<noteq> []"
  shows "endpoint_step acc (n, md) =
           Inr (dict_set acc (str_replace ''latency_ms_'' '''' n) (stats_of vs))"
  using assms by (simp add: endpoint_step_def endpoint_dict_dict)

lemma endpoint_step_empty_values:
  assumes "empty_values md"
  shows "endpoint_step acc (n, md) = Inr acc"
proof -
  from assms obtain kv where md: "md = JDict kv"
    and "dict_get kv ''values'' (JDict []) = JDict []"
    by (cases md) (auto simp: empty_values_def dict_get_def split: option.splits)
  then show ?thesis by (simp add: endpoint_step_def)
qed

lemma endpoint_step_cases:
  assumes "endpoint_step acc (n, md) = Inr acc'"
  shows "acc' = acc \<or>
         (\<exists>vs. startswith n ''latency_ms_'' \<and> py_get md ''values'' (JDict []) = Inr (JDict vs) \<and>
               vs \<noteq> [] \<and> acc' = dict_set acc (str_replace ''latency_ms_'' '''' n) (stats_of vs))"
  using assms
  by (auto simp: endpoint_step_def Let_def bind_result_eq_Inr split: if_splits dest!: endpoint_dict_Inr)

lemma endpoint_step_shaped:
  assumes "metric_shaped md"
  shows "\<exists>acc'. endpoint_step acc (n, md) = Inr acc'"
proof -
  from assms obtain kv where md: "md = JDict kv"
    and v: "case map_of kv ''values'' of None \<Rightarrow> True | Some v \<Rightarrow> is_dict v"
    by (cases md) (simp_all add: metric_shaped_def)
  have "is_dict (dict_get kv ''values'' (JDict []))"
    using v by (simp add: dict_get_def split: option.splits)
  then obtain vs where vs: "dict_get kv ''values'' (JDict []) = JDict vs"
    by (cases "dict_get kv ''values'' (JDict [])") simp_all
  show ?thesis
    by (simp add: endpoint_step_def md vs endpoint_dict_dict)
qed

lemma endpoint_loop_shaped:
  assumes "list_all (\<lambda>item. metric_shaped (snd item)) ms"
  shows "\<exists>acc'. endpoint_loop acc ms = Inr acc'"
  using assms
proof (induction ms arbitrary: acc)
  case Nil
  show ?case by simp
next
  case (Cons item ms)
  obtain n md where item: "item = (n, md)" by (cases item)
  with Cons.prems have "metric_shaped md" by simp
  then obtain acc1 where "endpoint_step acc (n, md) = Inr acc1"
    using endpoint_step_shaped by blast
  moreover from Cons.prems have "list_all (\<lambda>item. metric_shaped (snd item)) ms" by simp
  then obtain acc2 where "endpoint_loop acc1 ms = Inr acc2"
    using Cons.IH by blast
  ultimately show ?case by (simp add: item)
qed

lemma endpoint_loop_filter_other:
  "endpoint_loop acc (filter (\<lambda>item. startswith (fst item) ''latency_ms_'') ms) =
   endpoint_loop acc ms"
proof (induction ms arbitrary: acc)
  case Nil
  show ?case by simp
next
  case (Cons item ms)
  obtain n md where item: "item = (n, md)" by (cases item)
  show ?case
  proof (cases "startswith n ''latency_ms_''")
    case True
    then show ?thesis by (simp add: item Cons.IH)
  next
    case False
    then show ?thesis by (simp add: item Cons.IH endpoint_step_other)
  qed
qed

lemma endpoint_loop_filter_empty:
  "endpoint_loop acc
     (filter (\<lambda>item. \<not> (startswith (fst item) ''latency_ms_'' \<and> empty_values (snd item))) ms) =
   endpoint_loop acc ms"
proof (induction ms arbitrary: acc)
  case Nil
  show ?case by simp
next
  case (Cons item ms)
  obtain n md where item: "item = (n, md)" by (cases item)
  show ?case
  proof (cases "startswith n ''latency_ms_'' \<and> empty_values md")
    case True
    with Cons.IH show ?thesis by (simp add: item endpoint_step_empty_values)
  next
    case False
    with Cons.IH show ?thesis by (simp add: item)
  qed
qed

lemma endpoint_loop_provenance:
  assumes "endpoint_loop acc ms = Inr acc'" and "(e, r) \<in> set acc'"
  shows "(e, r) \<in> set acc \<or>
         (\<exists>n md vs. (n, md) \<in> set ms \<and> startswith n ''latency_ms_'' \<and>
            e = str_replace ''latency_ms_'' '''' n \<and>
            py_get md ''values'' (JDict []) = Inr (JDict vs) \<and> vs \<noteq> [] \<and> r = stats_of vs)"
  using assms
proof (induction ms arbitrary: acc)
  case Nil
  then show ?case by simp
next
  case (Cons item ms)
  obtain n md where item: "item = (n, md)" by (cases item)
  from Cons.prems(1) obtain acc1 where
    step: "endpoint_step acc (n, md) = Inr acc1" and rest: "endpoint_loop acc1 ms = Inr acc'"
    by (auto simp: item bind_result_eq_Inr)
  from Cons.IH [OF rest Cons.prems(2)]
  consider (old) "(e, r) \<in> set acc1"
    | (new) "\<exists>n md vs. (n, md) \<in> set ms \<and> startswith n ''latency_ms_'' \<and>
            e = str_replace ''latency_ms_'' '''' n \<and>
            py_get md ''values'' (JDict []) = Inr (JDict vs) \<and> vs \<noteq> [] \<and> r = stats_of vs"
    by blast
  then show ?case
  proof cases
    case old
    from endpoint_step_cases [OF step] show ?thesis
    proof
      assume "acc1 = acc"
      with old show ?thesis by simp
    next
      assume "\<exists>vs. startswith n ''latency_ms_'' \<and>
            py_get md ''values'' (JDict []) = Inr (JDict vs) \<and> vs \<noteq> [] \<and>
            acc1 = dict_set acc (str_replace ''latency_ms_'' '''' n) (stats_of vs)"
      then obtain vs where p: "startswith n ''latency_ms_''"
        and v: "py_get md ''values'' (JDict []) = Inr (JDict vs)" "vs \<noteq> []"
        and acc1: "acc1 = dict_set acc (str_replace ''latency_ms_'' '''' n) (stats_of vs)"
        by blast
      from old acc1 set_dict_set
      have "(e, r) = (str_replace ''latency_ms_'' '''' n, stats_of vs) \<or> (e, r) \<in> set acc"
        by fastforce
      with p v show ?thesis by (auto simp: item)
    qed
  next
    case new
    then show ?thesis by (auto simp: item)
  qed
qed

lemma endpoint_step_keys:
  assumes "endpoint_step acc item = Inr acc'"
  shows "fst ` set acc \<subseteq> fst ` set acc'"
proof -
  obtain n md where item: "item = (n, md)" by (cases item)
  from endpoint_step_cases [OF assms [unfolded item]] show ?thesis
  proof
    assume "acc' = acc"
    then show ?thesis by simp
  next
    assume "\<exists>vs. startswith n ''latency_ms_'' \<and>
            py_get md ''values'' (JDict []) = Inr (JDict vs) \<and> vs \<noteq> [] \<and>
            acc' = dict_set acc (str_replace ''latency_ms_'' [] n) (stats_of vs)"
    then obtain k v where "acc' = dict_set acc k v" by blast
    then have "fst ` set acc' = insert k (fst ` set acc)" by (simp add: keys_dict_set)
    then show ?thesis by blast
  qed
qed

lemma endpoint_loop_keys:
  assumes "endpoint_loop acc ms = Inr acc'"
  shows "fst ` set acc \<subseteq> fst ` set acc'"
  using assms
proof (induction ms arbitrary: acc)
  case Nil
  then show ?case by simp
next
  case (Cons item ms)
  from Cons.prems obtain acc1 where
    step: "endpoint_step acc item = Inr acc1" and rest: "endpoint_loop acc1 ms = Inr acc'"
    by (auto simp: bind_result_eq_Inr)
  from endpoint_step_keys [OF step] Cons.IH [OF rest] show ?case by blast
qed

lemma endpoint_loop_records:
  assumes "endpoint_loop acc ms = Inr acc'" and "(n, md) \<in> set ms"
    and "startswith n ''latency_ms_''"
    and "py_get md ''values'' (JDict []) = Inr (JDict vs)" and "vs \<noteq> []"
  shows "str_replace ''latency_ms_'' '''' n \<in> fst ` set acc'"
  using assms(1,2)
proof (induction ms arbitrary: acc)
  case Nil
  then show ?case by simp
next
  case (Cons item ms)
  from Cons.prems(1) obtain acc1 where
    step: "endpoint_step acc item = Inr acc1" and rest: "endpoint_loop acc1 ms = Inr acc'"
    by (auto simp: bind_result_eq_Inr)
  show ?case
  proof (cases "item = (n, md)")
    case True
    with step endpoint_step_record [OF assms(3-5)]
    have "acc1 = dict_set acc (str_replace ''latency_ms_'' '''' n) (stats_of vs)" by simp
    then have "str_replace ''latency_ms_'' '''' n \<in> fst ` set acc1"
      by (simp add: keys_dict_set)
    with endpoint_loop_keys [OF rest] show ?thesis by blast
  next
    case False
    with Cons.prems(2) have "(n, md) \<in> set ms" by simp
    from Cons.IH [OF rest this] show ?thesis .
  qed
qed

lemma endpoint_step_names:
  assumes "endpoint_step acc item = Inr acc'"
  shows "map fst acc' = (if recorded item then add_key (map fst acc) (endpoint_of item) else map fst acc)"
proof (cases "recorded item")
  case False
  obtain n md where item: "item = (n, md)" by (cases item)
  from endpoint_step_cases [OF assms [unfolded item]] have "acc' = acc"
  proof
    assume "\<exists>vs. startswith n ''latency_ms_'' \<and>
            py_get md ''values'' (JDict []) = Inr (JDict vs) \<and> vs \<noteq> [] \<and>
            acc' = dict_set acc (str_replace ''latency_ms_'' [] n) (stats_of vs)"
    then obtain vs where "startswith n ''latency_ms_''"
      "py_get md ''values'' (JDict []) = Inr (JDict vs)" "vs \<noteq> []" by blast
    then have "recorded item"
      by (cases md) (simp_all add: recorded_def item)
    with False show ?thesis by simp
  qed
  with False show ?thesis by simp
next
  case True
  obtain n md where item: "item = (n, md)" by (cases item)
  from True obtain kv where p: "startswith n ''latency_ms_''" and md: "md = JDict kv"
    and t: "truthy (dict_get kv ''values'' (JDict []))"
    by (cases md) (simp_all add: recorded_def item)
  from assms p md t obtain stats where
    "acc' = dict_set acc (str_replace ''latency_ms_'' '''' n) stats"
    by (auto simp: endpoint_step_def item bind_result_eq_Inr)
  with True show ?thesis
    by (simp add: map_fst_dict_set add_key_def endpoint_of_def item)
qed

lemma endpoint_loop_names:
  assumes "endpoint_loop acc ms = Inr acc'"
  shows "map fst acc' = foldl add_key (map fst acc) (map endpoint_of (filter recorded ms))"
  using assms
proof (induction ms arbitrary: acc)
  case Nil
  then show ?case by simp
next
  case (Cons item ms)
  from Cons.prems obtain acc1 where
    step: "endpoint_step acc item = Inr acc1" and rest: "endpoint_loop acc1 ms = Inr acc'"
    by (auto simp: bind_result_eq_Inr)
  from Cons.IH [OF rest] endpoint_step_names [OF step] show ?case by simp
qed

lemma foldl_add_key_distinct:
  assumes "distinct (ks @ xs)"
  shows "foldl add_key ks xs = ks @ xs"
  using assms by (induction xs arbitrary: ks) (simp_all add: add_key_def)

subsection \<open>The extraction as a whole\<close>

lemma extract_SomeE:
  assumes "extract_performance_data data = Inr (Some perf)"
  obtains metrics hd hr hf vu ch items where
    "truthy data"
    "py_get data ''metrics'' (JDict []) = Inr metrics"
    "metric_values metrics ''http_req_duration'' = Inr hd"
    "metric_values metrics ''http_reqs'' = Inr hr"
    "metric_values metrics ''http_req_failed'' = Inr hf"
    "metric_values metrics ''vus'' = Inr vu"
    "metric_values metrics ''checks'' = Inr ch"
    "py_items metrics = Inr items"
    "endpoint_loop [] items = Inr (endpoints perf)"
    "overall_dict data hd hr hf vu ch = Inr (overall perf)"
  using assms unfolding extract_performance_data_def
  by (auto simp: bind_result_eq_Inr split: if_splits)

lemma extract_metricsE:
  assumes "extract_performance_data (JDict kvs) = Inr (Some perf)"
    and "map_of kvs ''metrics'' = Some (JDict ms)"
  shows "endpoint_loop [] ms = Inr (endpoints perf)"
proof -
  from assms(1) obtain metrics items where
    "py_get (JDict kvs) ''metrics'' (JDict []) = Inr metrics"
    "py_items metrics = Inr items" "endpoint_loop [] items = Inr (endpoints perf)"
    by (rule extract_SomeE)
  with assms(2) show ?thesis by (auto simp: dict_get_def)
qed

lemma extract_shaped:
  assumes "report_shaped (JDict kvs)" and "kvs \<noteq> []"
  obtains ms a b c d e eps where
    "dict_get kvs ''metrics'' (JDict []) = JDict ms"
    "list_all (\<lambda>item. metric_shaped (snd item)) ms"
    "metric_values (JDict ms) ''http_req_duration'' = Inr (JDict a)"
    "metric_values (JDict ms) ''http_reqs'' = Inr (JDict b)"
    "metric_values (JDict ms) ''http_req_failed'' = Inr (JDict c)"
    "metric_values (JDict ms) ''vus'' = Inr (JDict d)"
    "metric_values (JDict ms) ''checks'' = Inr (JDict e)"
    "endpoint_loop [] ms = Inr eps"
    "extract_performance_data (JDict kvs) =
       Inr (Some \<lparr>overall = overall_of a b c d e (JFloat (test_run_duration_ms kvs / 1000)),
                 endpoints = eps\<rparr>)"
proof -
  from assms(1) have m: "case map_of kvs ''metrics'' of None \<Rightarrow> True | Some m \<Rightarrow> metrics_shaped m"
    and s: "case map_of kvs ''state'' of None \<Rightarrow> True | Some s \<Rightarrow> state_shaped s"
    by (simp_all add: report_shaped_def)
  have "metrics_shaped (dict_get kvs ''metrics'' (JDict []))"
    using m by (simp add: dict_get_def metrics_shaped_def split: option.splits)
  then obtain ms where ms: "dict_get kvs ''metrics'' (JDict []) = JDict ms"
    and sh: "metrics_shaped (JDict ms)"
    by (cases "dict_get kvs ''metrics'' (JDict [])") (simp_all add: metrics_shaped_def)
  from sh have all: "list_all (\<lambda>item. metric_shaped (snd item)) ms"
    by (simp add: metrics_shaped_def)
  obtain a where a: "metric_values (JDict ms) ''http_req_duration'' = Inr (JDict a)"
    using metric_values_shaped [OF sh] by blast
  obtain b where b: "metric_values (JDict ms) ''http_reqs'' = Inr (JDict b)"
    using metric_values_shaped [OF sh] by blast
  obtain c where c: "metric_values (JDict ms) ''http_req_failed'' = Inr (JDict c)"
    using metric_values_shaped [OF sh] by blast
  obtain d where d: "metric_values (JDict ms) ''vus'' = Inr (JDict d)"
    using metric_values_shaped [OF sh] by blast
  obtain e where e: "metric_values (JDict ms) ''checks'' = Inr (JDict e)"
    using metric_values_shaped [OF sh] by blast
  obtain eps where eps: "endpoint_loop [] ms = Inr eps"
    using endpoint_loop_shaped [OF all] by blast
  have "extract_performance_data (JDict kvs) =
       Inr (Some \<lparr>overall = overall_of a b c d e (JFloat (test_run_duration_ms kvs / 1000)),
                 endpoints = eps\<rparr>)"
    using assms(2)
    by (simp add: extract_performance_data_def ms a b c d e eps overall_dict_of
        state_duration [OF s])
  with ms all a b c d e eps show ?thesis by (rule that)
qed

lemma endpoints_in_scan_order:
  assumes "extract_performance_data (JDict kvs) = Inr (Some perf)"
    and "map_of kvs ''metrics'' = Some (JDict ms)"
  shows "map fst (endpoints perf) = foldl add_key [] (map endpoint_of (filter recorded ms))"
    and "distinct (map endpoint_of (filter recorded ms)) \<Longrightarrow>
         map fst (endpoints perf) = map endpoint_of (filter recorded ms)"
proof -
  from endpoint_loop_names [OF extract_metricsE [OF assms]]
  show a: "map fst (endpoints perf) = foldl add_key [] (map endpoint_of (filter recorded ms))"
    by simp
  show "map fst (endpoints perf) = map endpoint_of (filter recorded ms)"
    if "distinct (map endpoint_of (filter recorded ms))"
    using that a by (simp add: foldl_add_key_distinct)
qed

subsection \<open>The ranking\<close>

lemma sorted_by_p95_props:
  assumes "sorted_by_p95 items = Some ranked"
  shows "mset ranked = mset items"
    and "sorted_wrt (\<lambda>x y. p95_number y \<le> p95_number x) ranked"
    and "filter (\<lambda>x. p95_number x = k) ranked = filter (\<lambda>x. p95_number x = k) items"
proof -
  from assms have ranked: "ranked = rev (sort_key p95_number (rev items))"
    by (simp add: sorted_by_p95_def split: if_splits)
  show "mset ranked = mset items"
    by (simp add: ranked)
  have "sorted (map p95_number (sort_key p95_number (rev items)))"
    by (rule sorted_sort_key)
  then have "sorted_wrt (\<lambda>x y. p95_number x \<le> p95_number y) (sort_key p95_number (rev items))"
    by (simp add: sorted_wrt_map)
  then show "sorted_wrt (\<lambda>x y. p95_number y \<le> p95_number x) ranked"
    by (simp add: ranked sorted_wrt_rev)
  have "filter (\<lambda>x. p95_number x = k) ranked =
        rev (filter (\<lambda>x. p95_number x = k) (sort_key p95_number (rev items)))"
    by (simp add: ranked rev_filter)
  also have "\<dots> = rev (filter (\<lambda>x. p95_number x = k) (rev items))"
    by (simp only: sort_key_stable)
  also have "\<dots> = filter (\<lambda>x. p95_number x = k) items"
    by (simp add: rev_filter)
  finally show "filter (\<lambda>x. p95_number x = k) ranked = filter (\<lambda>x. p95_number x = k) items" .
qed

section \<open>The claims\<close>

text \<open>
  C1. On every Raw Report, with any combination of keys absent, extraction raises no
  exception: each lookup of \<open>metrics\<close>, \<open>state\<close>, a metric's \<open>values\<close> or a field
  resolves to a default, and the function returns.
\<close>

theorem extraction_never_raises:
  assumes "report_shaped data"
  shows "\<exists>result. extract_performance_data data = Inr result"
proof -
  from assms obtain kvs where data: "data = JDict kvs"
    by (cases data) (simp_all add: report_shaped_def)
  show ?thesis
  proof (cases "kvs = []")
    case True
    with data show ?thesis by (simp add: extract_performance_data_def)
  next
    case False
    from assms data have "report_shaped (JDict kvs)" by simp
    from this False show ?thesis
      unfolding data by (rule extract_shaped) blast
  qed
qed

theorem extraction_never_raises_witness:
  "report_shaped (JDict [(''metrics'', JDict [(''http_reqs'', JDict []),
      (''latency_ms_login'', JDict [(''values'', JDict [(''p(95)'', JInt 200)])]),
      (''latency_ms_cart'', JDict [])])]) \<and>
   (\<exists>result. extract_performance_data (JDict [(''metrics'', JDict [(''http_reqs'', JDict []),
      (''latency_ms_login'', JDict [(''values'', JDict [(''p(95)'', JInt 200)])]),
      (''latency_ms_cart'', JDict [])])]) = Inr result)"
proof -
  have h: "report_shaped (JDict [(''metrics'', JDict [(''http_reqs'', JDict []),
      (''latency_ms_login'', JDict [(''values'', JDict [(''p(95)'', JInt 200)])]),
      (''latency_ms_cart'', JDict [])])])"
    by (simp add: report_shaped_def metrics_shaped_def metric_shaped_def)
  show ?thesis using h extraction_never_raises [OF h] by simp
qed

text \<open>
  C2, as stated: every present Raw Report, the empty mapping included, gives the pair of
  Overall Stats and Endpoint Stats. The guard \<open>if not data\<close> takes the empty mapping
  for an absent input and returns \<open>None\<close>.
\<close>

theorem empty_report_counterexample: "extract_performance_data (JDict []) = Inr None"
  by (simp add: extract_performance_data_def)

text \<open>
  C2, amended: extraction returns \<open>None\<close> exactly when its input is falsy, which the
  absent input and the empty mapping are; on every non-empty Raw Report it returns the
  pair of Overall Stats and Endpoint Stats.
\<close>

theorem none_iff_falsy:
  "(extract_performance_data data = Inr None) = (\<not> truthy data) \<and>
   (report_shaped data \<and> truthy data \<longrightarrow>
      (\<exists>perf. extract_performance_data data = Inr (Some perf)))"
proof
  show "(extract_performance_data data = Inr None) = (\<not> truthy data)"
    by (auto simp: extract_performance_data_def bind_result_eq_Inr)
next
  show "report_shaped data \<and> truthy data \<longrightarrow>
      (\<exists>perf. extract_performance_data data = Inr (Some perf))"
  proof
    assume h: "report_shaped data \<and> truthy data"
    then obtain kvs where data: "data = JDict kvs"
      by (cases data) (simp_all add: report_shaped_def)
    with h have "report_shaped (JDict kvs)" and "kvs \<noteq> []" by simp_all
    then show "\<exists>perf. extract_performance_data data = Inr (Some perf)"
      unfolding data by (rule extract_shaped) blast
  qed
qed

theorem none_iff_falsy_witness:
  "extract_performance_data JNull = Inr None \<and>
   report_shaped (JDict [(''state'', JDict [])]) \<and> truthy (JDict [(''state'', JDict [])]) \<and>
   (\<exists>perf. extract_performance_data (JDict [(''state'', JDict [])]) = Inr (Some perf))"
proof -
  have h: "report_shaped (JDict [(''state'', JDict [])]) \<and> truthy (JDict [(''state'', JDict [])])"
    by (simp add: report_shaped_def state_shaped_def)
  show ?thesis
    using h none_iff_falsy [of JNull] none_iff_falsy [of "JDict [(''state'', JDict [])]"]
    by simp
qed




text \<open>
  C4. The endpoint identifier of a metric whose name begins with \<open>latency_ms_\<close> is
  the name with that leading prefix stripped and the rest unchanged. Line 38 calls
  \<open>replace\<close>, which removes every occurrence of \<open>latency_ms_\<close>, not only the one
  at the start: the metric \<open>latency_ms_a_latency_ms_b\<close> is recorded as \<open>a_b\<close>
  and not as \<open>a_latency_ms_b\<close>.
\<close>

theorem inner_prefix_removed:
  "extract_performance_data (JDict [(''metrics'', JDict
      [(''latency_ms_a_latency_ms_b'', JDict [(''values'', JDict [(''p(95)'', JInt 7)])])])]) =
   Inr (Some \<lparr>overall = overall_of [] [] [] [] [] (JFloat 0),
             endpoints = [(''a_b'', stats_of [(''p(95)'', JInt 7)])]\<rparr>)"
  by (simp add: extract_performance_data_def metric_values_def overall_dict_def dict_get_def
      float_overflow_bound_def endpoint_step_def endpoint_dict_def startswith_def
      overall_of_def stats_of_def)

text \<open>
  C5. A metric whose name does not start with \<open>latency_ms_\<close> leaves no entry in
  Endpoint Stats: the Endpoint Stats of a report are those of the scan over its
  prefixed metrics alone, and the name of every entry is the endpoint name of a
  prefixed metric of the report.
\<close>

theorem other_metrics_ignored:
  assumes "extract_performance_data (JDict kvs) = Inr (Some perf)"
    and "map_of kvs ''metrics'' = Some (JDict ms)"
  shows "endpoint_loop [] (filter (\<lambda>item. startswith (fst item) ''latency_ms_'') ms) =
           Inr (endpoints perf) \<and>
         (\<forall>(e, r) \<in> set (endpoints perf). \<exists>(n, md) \<in> set ms.
            startswith n ''latency_ms_'' \<and> e = str_replace ''latency_ms_'' '''' n)"
proof
  from extract_metricsE [OF assms]
  show "endpoint_loop [] (filter (\<lambda>item. startswith (fst item) ''latency_ms_'') ms) =
           Inr (endpoints perf)"
    by (simp add: endpoint_loop_filter_other)
next
  show "\<forall>(e, r) \<in> set (endpoints perf). \<exists>(n, md) \<in> set ms.
            startswith n ''latency_ms_'' \<and> e = str_replace ''latency_ms_'' '''' n"
  proof (clarify)
    fix e r
    assume "(e, r) \<in> set (endpoints perf)"
    from endpoint_loop_provenance [OF extract_metricsE [OF assms] this]
    show "\<exists>(n, md) \<in> set ms.
            startswith n ''latency_ms_'' \<and> e = str_replace ''latency_ms_'' '''' n"
      by auto
  qed
qed

theorem other_metrics_ignored_witness:
  "\<exists>perf. extract_performance_data (JDict [(''metrics'', JDict
        [(''http_reqs'', JDict [(''values'', JDict [(''count'', JInt 10)])]),
         (''iterations'', JInt 3),
         (''latency_ms_login'', JDict [(''values'', JDict [(''p(95)'', JInt 200)])])])])
      = Inr (Some perf) \<and>
     endpoints perf = [(''login'', stats_of [(''p(95)'', JInt 200)])] \<and>
     endpoint_loop []
       [(''latency_ms_login'', JDict [(''values'', JDict [(''p(95)'', JInt 200)])])]
      = Inr (endpoints perf)"
proof -
  let ?ms = "[(''http_reqs'', JDict [(''values'', JDict [(''count'', JInt 10)])]),
         (''iterations'', JInt 3),
         (''latency_ms_login'', JDict [(''values'', JDict [(''p(95)'', JInt 200)])])]"
  let ?perf = "\<lparr>overall = overall_of [] [(''count'', JInt 10)] [] [] [] (JFloat 0),
             endpoints = [(''login'', stats_of [(''p(95)'', JInt 200)])]\<rparr>"
  have h1: "extract_performance_data (JDict [(''metrics'', JDict ?ms)]) = Inr (Some ?perf)"
    by (simp add: extract_performance_data_def metric_values_def overall_dict_def dict_get_def
      float_overflow_bound_def endpoint_step_def endpoint_dict_def startswith_def
      overall_of_def stats_of_def)
  have h2: "map_of [(''metrics'', JDict ?ms)] ''metrics'' = Some (JDict ?ms)"
    by simp
  have f: "filter (\<lambda>item. startswith (fst item) ''latency_ms_'') ?ms =
      [(''latency_ms_login'', JDict [(''values'', JDict [(''p(95)'', JInt 200)])])]"
    by (simp add: startswith_def)
  from other_metrics_ignored [OF h1 h2]
  have "endpoint_loop [] (filter (\<lambda>item. startswith (fst item) ''latency_ms_'') ?ms) =
           Inr (endpoints ?perf)"
    by (rule conjunct1)
  then have "endpoint_loop []
       [(''latency_ms_login'', JDict [(''values'', JDict [(''p(95)'', JInt 200)])])]
      = Inr (endpoints ?perf)"
    by (simp only: f)
  with h1 show ?thesis by (intro exI [of _ ?perf] conjI) simp_all
qed

text \<open>
  C6. A metric whose name starts with \<open>latency_ms_\<close> and whose \<open>values\<close> mapping is
  empty or absent is not recorded: the Endpoint Stats of a report are those of the scan
  without these metrics, and every entry holds the fields of a non-empty \<open>values\<close>
  mapping of a prefixed metric, so none is made up of defaults alone for a metric
  without values.
\<close>

theorem empty_values_skipped:
  assumes "extract_performance_data (JDict kvs) = Inr (Some perf)"
    and "map_of kvs ''metrics'' = Some (JDict ms)"
  shows "endpoint_loop []
           (filter (\<lambda>item. \<not> (startswith (fst item) ''latency_ms_'' \<and> empty_values (snd item))) ms) =
           Inr (endpoints perf) \<and>
         (\<forall>(e, r) \<in> set (endpoints perf). \<exists>(n, md) \<in> set ms. \<exists>vs.
            startswith n ''latency_ms_'' \<and> e = str_replace ''latency_ms_'' '''' n \<and>
            py_get md ''values'' (JDict []) = Inr (JDict vs) \<and> vs \<noteq> [] \<and> r = stats_of vs)"
proof
  from extract_metricsE [OF assms]
  show "endpoint_loop []
           (filter (\<lambda>item. \<not> (startswith (fst item) ''latency_ms_'' \<and> empty_values (snd item))) ms) =
           Inr (endpoints perf)"
    by (simp only: endpoint_loop_filter_empty)
next
  show "\<forall>(e, r) \<in> set (endpoints perf). \<exists>(n, md) \<in> set ms. \<exists>vs.
            startswith n ''latency_ms_'' \<and> e = str_replace ''latency_ms_'' '''' n \<and>
            py_get md ''values'' (JDict []) = Inr (JDict vs) \<and> vs \<noteq> [] \<and> r = stats_of vs"
  proof (clarify)
    fix e r
    assume "(e, r) \<in> set (endpoints perf)"
    from endpoint_loop_provenance [OF extract_metricsE [OF assms] this]
    show "\<exists>(n, md) \<in> set ms. \<exists>vs.
            startswith n ''latency_ms_'' \<and> e = str_replace ''latency_ms_'' '''' n \<and>
            py_get md ''values'' (JDict []) = Inr (JDict vs) \<and> vs \<noteq> [] \<and> r = stats_of vs"
      by auto
  qed
qed

theorem empty_values_skipped_witness:
  "\<exists>perf. extract_performance_data (JDict [(''metrics'', JDict
        [(''latency_ms_cart'', JDict [(''values'', JDict [])]),
         (''latency_ms_login'', JDict [(''values'', JDict [(''p(95)'', JInt 200)])]),
         (''latency_ms_pay'', JDict [])])])
      = Inr (Some perf) \<and>
     endpoints perf = [(''login'', stats_of [(''p(95)'', JInt 200)])] \<and>
     endpoint_loop []
       [(''latency_ms_login'', JDict [(''values'', JDict [(''p(95)'', JInt 200)])])]
      = Inr (endpoints perf)"
proof -
  let ?ms = "[(''latency_ms_cart'', JDict [(''values'', JDict [])]),
         (''latency_ms_login'', JDict [(''values'', JDict [(''p(95)'', JInt 200)])]),
         (''latency_ms_pay'', JDict [])]"
  let ?perf = "\<lparr>overall = overall_of [] [] [] [] [] (JFloat 0),
             endpoints = [(''login'', stats_of [(''p(95)'', JInt 200)])]\<rparr>"
  have h1: "extract_performance_data (JDict [(''metrics'', JDict ?ms)]) = Inr (Some ?perf)"
    by (simp add: extract_performance_data_def metric_values_def overall_dict_def dict_get_def
      float_overflow_bound_def endpoint_step_def endpoint_dict_def startswith_def
      overall_of_def stats_of_def)
  have h2: "map_of [(''metrics'', JDict ?ms)] ''metrics'' = Some (JDict ?ms)"
    by simp
  have f: "filter (\<lambda>item. \<not> (startswith (fst item) ''latency_ms_'' \<and> empty_values (snd item))) ?ms =
      [(''latency_ms_login'', JDict [(''values'', JDict [(''p(95)'', JInt 200)])])]"
    by (simp add: startswith_def empty_values_def)
  from empty_values_skipped [OF h1 h2]
  have "endpoint_loop []
     (filter (\<lambda>item. \<not> (startswith (fst item) ''latency_ms_'' \<and> empty_values (snd item))) ?ms) =
           Inr (endpoints ?perf)"
    by (rule conjunct1)
  then have "endpoint_loop []
       [(''latency_ms_login'', JDict [(''values'', JDict [(''p(95)'', JInt 200)])])]
      = Inr (endpoints ?perf)"
    by (simp only: f)
  with h1 show ?thesis by (intro exI [of _ ?perf] conjI) simp_all
qed

text \<open>
  C7. The ranking of the endpoint comparison and of the console summary lists the
  endpoints of an Endpoint Stats mapping in descending order of \<open>p95\<close> and is stable:
  endpoints with equal \<open>p95\<close> keep the order they have in the mapping, which is the
  order in which the scan of the metrics first recorded them. The console summary
  takes the first 5 of the ranking.
\<close>

theorem ranking_descending_stable:
  assumes "list_all (\<lambda>x. num_val (ep_p95 (snd x)) \<noteq> None) (endpoints perf)"
  shows "\<exists>ranked.
           comparison_sorted_endpoints perf = Some ranked \<and>
           summary_sorted_endpoints perf = Some (take 5 ranked) \<and>
           mset ranked = mset (endpoints perf) \<and>
           sorted_wrt (\<lambda>x y. p95_number y \<le> p95_number x) ranked \<and>
           (\<forall>k. filter (\<lambda>x. p95_number x = k) ranked =
                filter (\<lambda>x. p95_number x = k) (endpoints perf)) \<and>
           (\<forall>kvs ms. extract_performance_data (JDict kvs) = Inr (Some perf) \<and>
                map_of kvs ''metrics'' = Some (JDict ms) \<longrightarrow>
                map fst (endpoints perf) =
                  foldl add_key [] (map endpoint_of (filter recorded ms)))"
proof -
  from assms obtain ranked where r: "sorted_by_p95 (endpoints perf) = Some ranked"
    by (simp add: sorted_by_p95_def)
  have "comparison_sorted_endpoints perf = Some ranked"
    by (simp add: comparison_sorted_endpoints_def r)
  moreover have "summary_sorted_endpoints perf = Some (take 5 ranked)"
    by (simp add: summary_sorted_endpoints_def r)
  moreover have "\<forall>kvs ms. extract_performance_data (JDict kvs) = Inr (Some perf) \<and>
                map_of kvs ''metrics'' = Some (JDict ms) \<longrightarrow>
                map fst (endpoints perf) =
                  foldl add_key [] (map endpoint_of (filter recorded ms))"
    using endpoints_in_scan_order(1) by blast
  ultimately show ?thesis
    using sorted_by_p95_props [OF r] by blast
qed

theorem ranking_descending_stable_witness:
  "\<exists>perf.
     extract_performance_data (JDict [(''metrics'', JDict
       [(''latency_ms_a'', JDict [(''values'', JDict [(''p(95)'', JInt 200)])]),
        (''latency_ms_b'', JDict [(''values'', JDict [(''p(95)'', JInt 500)])]),
        (''latency_ms_c'', JDict [(''values'', JDict [(''p(95)'', JFloat 200)])]),
        (''latency_ms_d'', JDict [(''values'', JDict [(''p(95)'', JInt 500)])]),
        (''latency_ms_e'', JDict [(''values'', JDict [(''avg'', JInt 3)])]),
        (''latency_ms_f'', JDict [(''values'', JDict [(''p(95)'', JFloat (1801 / 2))])])])])
       = Inr (Some perf) \<and>
     map fst (endpoints perf) = [''a'', ''b'', ''c'', ''d'', ''e'', ''f''] \<and>
     map_option (map fst) (comparison_sorted_endpoints perf) =
       Some [''f'', ''b'', ''d'', ''a'', ''c'', ''e''] \<and>
     map_option (map fst) (summary_sorted_endpoints perf) =
       Some [''f'', ''b'', ''d'', ''a'', ''c'']"
proof -
  let ?ms = "[(''latency_ms_a'', JDict [(''values'', JDict [(''p(95)'', JInt 200)])]),
        (''latency_ms_b'', JDict [(''values'', JDict [(''p(95)'', JInt 500)])]),
        (''latency_ms_c'', JDict [(''values'', JDict [(''p(95)'', JFloat 200)])]),
        (''latency_ms_d'', JDict [(''values'', JDict [(''p(95)'', JInt 500)])]),
        (''latency_ms_e'', JDict [(''values'', JDict [(''avg'', JInt 3)])]),
        (''latency_ms_f'', JDict [(''values'', JDict [(''p(95)'', JFloat (1801 / 2))])])]"
  let ?eps = "[(''a'', stats_of [(''p(95)'', JInt 200)]),
       (''b'', stats_of [(''p(95)'', JInt 500)]),
       (''c'', stats_of [(''p(95)'', JFloat 200)]),
       (''d'', stats_of [(''p(95)'', JInt 500)]),
       (''e'', stats_of [(''avg'', JInt 3)]),
       (''f'', stats_of [(''p(95)'', JFloat (1801 / 2))])]"
  let ?perf = "\<lparr>overall = overall_of [] [] [] [] [] (JFloat 0), endpoints = ?eps\<rparr>"
  have x: "extract_performance_data (JDict [(''metrics'', JDict ?ms)]) = Inr (Some ?perf)"
    by (simp add: extract_performance_data_def metric_values_def overall_dict_def dict_get_def
      float_overflow_bound_def endpoint_step_def endpoint_dict_def startswith_def
      overall_of_def stats_of_def)
  have h: "list_all (\<lambda>x. num_val (ep_p95 (snd x)) \<noteq> None) (endpoints ?perf)"
    by (simp add: stats_of_def dict_get_def del: not_None_eq)
  have c: "map_option (map fst) (comparison_sorted_endpoints ?perf) =
       Some [''f'', ''b'', ''d'', ''a'', ''c'', ''e'']"
    by (simp add: comparison_sorted_endpoints_def sorted_by_p95_def p95_number_def
        stats_of_def dict_get_def del: not_None_eq)
  from ranking_descending_stable [OF h] obtain ranked where
    r: "comparison_sorted_endpoints ?perf = Some ranked"
    and s: "summary_sorted_endpoints ?perf = Some (take 5 ranked)"
    by blast
  from c r have "map fst ranked = [''f'', ''b'', ''d'', ''a'', ''c'', ''e'']" by simp
  then have "map fst (take 5 ranked) = [''f'', ''b'', ''d'', ''a'', ''c'']"
    by (simp add: take_map [symmetric])
  with s have "map_option (map fst) (summary_sorted_endpoints ?perf) =
       Some [''f'', ''b'', ''d'', ''a'', ''c'']"
    by simp
  with x c show ?thesis
    by (intro exI [of _ ?perf] conjI) simp_all
qed



text \<open>
  C9. A Raw Report with \<open>http_req_duration.values\<close> holding \<open>med = 120\<close>,
  \<open>p(90) = 300\<close>, \<open>p(95) = 450\<close>, \<open>p(99) = 900\<close> and \<open>http_reqs.values\<close>
  holding \<open>count = 10000\<close>, \<open>rate = 55.5\<close> gives Overall Stats with \<open>p50 = 120\<close>,
  \<open>p90 = 300\<close>, \<open>p95 = 450\<close>, \<open>p99 = 900\<close>, \<open>total_requests = 10000\<close> and
  \<open>requests_per_sec = 55.5\<close>.
\<close>

theorem fixture_overall_stats:
  assumes "report_shaped (JDict kvs)"
    and "map_of kvs ''metrics'' = Some (JDict ms)"
    and "map_of ms ''http_req_duration'' = Some (JDict dur)"
    and "map_of dur ''values'' = Some (JDict dv)"
    and "map_of dv ''med'' = Some (JInt 120)"
    and "map_of dv ''p(90)'' = Some (JInt 300)"
    and "map_of dv ''p(95)'' = Some (JInt 450)"
    and "map_of dv ''p(99)'' = Some (JInt 900)"
    and "map_of ms ''http_reqs'' = Some (JDict reqs)"
    and "map_of reqs ''values'' = Some (JDict rv)"
    and "map_of rv ''count'' = Some (JInt 10000)"
    and "map_of rv ''rate'' = Some (JFloat (111 / 2))"
  shows "\<exists>perf. extract_performance_data (JDict kvs) = Inr (Some perf) \<and>
           p50 (overall perf) = JInt 120 \<and> p90 (overall perf) = JInt 300 \<and>
           p95 (overall perf) = JInt 450 \<and> p99 (overall perf) = JInt 900 \<and>
           total_requests (overall perf) = JInt 10000 \<and>
           requests_per_sec (overall perf) = JFloat (111 / 2)"
proof -
  from assms(2) have ne: "kvs \<noteq> []" by auto
  from assms(1) ne obtain ms' a b c d e eps where
    ms': "dict_get kvs ''metrics'' (JDict []) = JDict ms'"
    and a: "metric_values (JDict ms') ''http_req_duration'' = Inr (JDict a)"
    and b: "metric_values (JDict ms') ''http_reqs'' = Inr (JDict b)"
    and res: "extract_performance_data (JDict kvs) =
       Inr (Some \<lparr>overall = overall_of a b c d e (JFloat (test_run_duration_ms kvs / 1000)),
                 endpoints = eps\<rparr>)"
    by (rule extract_shaped)
  from ms' assms(2) have "ms' = ms" by (simp add: dict_get_def)
  with a b metric_values_lookup [OF assms(3,4)] metric_values_lookup [OF assms(9,10)]
  have "a = dv" and "b = rv" by simp_all
  with res assms(5-8,11,12) show ?thesis
    by (simp add: overall_of_def dict_get_def)
qed

theorem fixture_overall_stats_witness:
  "\<exists>perf. extract_performance_data (JDict
      [(''metrics'', JDict
         [(''http_req_duration'', JDict [(''values'', JDict
             [(''med'', JInt 120), (''p(90)'', JInt 300), (''p(95)'', JInt 450),
              (''p(99)'', JInt 900)])]),
          (''http_reqs'', JDict [(''values'', JDict
             [(''count'', JInt 10000), (''rate'', JFloat (111 / 2))])])]),
       (''state'', JDict [(''testRunDurationMs'', JInt 180000)])]) = Inr (Some perf) \<and>
     p50 (overall perf) = JInt 120 \<and> p90 (overall perf) = JInt 300 \<and>
     p95 (overall perf) = JInt 450 \<and> p99 (overall perf) = JInt 900 \<and>
     total_requests (overall perf) = JInt 10000 \<and>
     requests_per_sec (overall perf) = JFloat (111 / 2)"
proof -
  let ?dv = "[(''med'', JInt 120), (''p(90)'', JInt 300), (''p(95)'', JInt 450),
              (''p(99)'', JInt 900)]"
  let ?rv = "[(''count'', JInt 10000), (''rate'', JFloat (111 / 2))]"
  let ?dur = "[(''values'', JDict ?dv)]"
  let ?reqs = "[(''values'', JDict ?rv)]"
  let ?ms = "[(''http_req_duration'', JDict ?dur), (''http_reqs'', JDict ?reqs)]"
  let ?kvs = "[(''metrics'', JDict ?ms), (''state'', JDict [(''testRunDurationMs'', JInt 180000)])]"
  have h: "report_shaped (JDict ?kvs)"
    by (simp add: report_shaped_def metrics_shaped_def metric_shaped_def state_shaped_def
        duration_shaped_def float_overflow_bound_def)
  show ?thesis
    by (rule fixture_overall_stats [OF h, where ms = ?ms and dur = ?dur and dv = ?dv
          and reqs = ?reqs and rv = ?rv]) simp_all
qed

text \<open>
  C10. A Raw Report whose metrics hold the key \<open>latency_ms_\<close>, the bare prefix, with a
  non-empty \<open>values\<close> mapping gets an Endpoint Stats entry whose name is the empty
  string.
\<close>

theorem bare_prefix_endpoint:
  assumes "report_shaped (JDict kvs)"
    and "map_of kvs ''metrics'' = Some (JDict ms)"
    and "map_of ms ''latency_ms_'' = Some (JDict m)"
    and "map_of m ''values'' = Some (JDict vs)" and "vs \<noteq> []"
  shows "\<exists>perf. extract_performance_data (JDict kvs) = Inr (Some perf) \<and>
           '''' \<in> fst ` set (endpoints perf)"
proof -
  from assms(2) have ne: "kvs \<noteq> []" by auto
  from assms(1) ne obtain perf where
    perf: "extract_performance_data (JDict kvs) = Inr (Some perf)"
    by (rule extract_shaped) blast
  have loop: "endpoint_loop [] ms = Inr (endpoints perf)"
    using perf assms(2) by (rule extract_metricsE)
  have mem: "(''latency_ms_'', JDict m) \<in> set ms"
    using assms(3) by (rule map_of_SomeD)
  have pre: "startswith ''latency_ms_'' ''latency_ms_''"
    by (simp add: startswith_def)
  have vals: "py_get (JDict m) ''values'' (JDict []) = Inr (JDict vs)"
    using assms(4) by (simp add: dict_get_def)
  have "str_replace ''latency_ms_'' '''' ''latency_ms_'' \<in> fst ` set (endpoints perf)"
    using loop mem pre vals assms(5) by (rule endpoint_loop_records)
  moreover have "str_replace ''latency_ms_'' '''' ''latency_ms_'' = ''''"
    by (simp add: startswith_def)
  ultimately show ?thesis using perf by auto
qed

theorem bare_prefix_endpoint_witness:
  "\<exists>perf. extract_performance_data (JDict [(''metrics'', JDict
       [(''latency_ms_'', JDict [(''values'', JDict [(''avg'', JInt 12)])])])]) = Inr (Some perf) \<and>
     '''' \<in> fst ` set (endpoints perf)"
proof -
  let ?vs = "[(''avg'', JInt 12)]"
  let ?m = "[(''values'', JDict ?vs)]"
  let ?ms = "[(''latency_ms_'', JDict ?m)]"
  have h: "report_shaped (JDict [(''metrics'', JDict ?ms)])"
    by (simp add: report_shaped_def metrics_shaped_def metric_shaped_def)
  show ?thesis
    by (rule bare_prefix_endpoint [OF h, where ms = ?ms and m = ?m and vs = ?vs]) simp_all
qed

end
